theory Spec2Isabelle
  imports Main "HOL-Library.Word"
begin

section \<open>The sensor session of qt-api/abstractsensor\_i.cpp\<close>

text \<open>
  The embedding follows \<^verbatim>\<open>AbstractSensorChannelInterface\<close>: the private
  implementation struct is a record (a field \<^verbatim>\<open>running_\<close> of the source is
  \<open>running_m\<close> here, since a name cannot end in an underscore), every member function
  takes the state and returns the new one, and every blocking D-Bus round trip (a method
  call or a property read) is appended to a trace, together with the fields of the struct
  at the moment the round trip is issued. C++ \<^verbatim>\<open>int\<close> is a signed 32-bit word, \<^verbatim>\<open>unsigned int\<close> a
  32-bit word.
\<close>

subsection \<open>Data\<close>

type_synonym c_int = "32 word"  \<comment> \<open>read as two's complement by \<open>sint\<close>\<close>
type_synonym c_uint = "32 word"

text \<open>
  \<^verbatim>\<open>SensorError\<close> is declared in a header that is not part of the sources at hand.
  The file names two of its enumerators; they are taken as distinct, and every other
  enumerator is carried by its integer value.
\<close>

datatype SensorError = SNoError | SClientSocketError | SOtherError c_int

text \<open>
  \<^verbatim>\<open>SocketReader\<close> (absent too) is kept as the two facts this file depends on:
  whether the data channel is open, and how many times the slot
  \<^verbatim>\<open>dataReceived()\<close> is connected to the socket's \<^verbatim>\<open>readyRead()\<close> signal.
\<close>

record SocketReader =
  socket_open :: bool
  readyRead_slots :: nat

record AbstractSensorChannelInterfaceImpl =
  errorCode_m :: SensorError
  errorString_m :: string
  sessionId_m :: c_int
  interval_m :: c_int
  bufferInterval_m :: c_uint
  bufferSize_m :: c_uint
  socketReader_m :: SocketReader
  running_m :: bool
  standbyOverride_m :: bool

text \<open>
  The arguments of a D-Bus call are \<^verbatim>\<open>QVariant\<close>s; \<open>'r\<close> stands for
  \<^verbatim>\<open>DataRange\<close>, whose declaration is absent.
\<close>

datatype 'r QVariant = QInt c_int | QUInt c_uint | QBool bool | QDataRange 'r

datatype 'r dbus_call = Method string "'r QVariant list" | Property string

type_synonym 'r event = "AbstractSensorChannelInterfaceImpl \<times> 'r dbus_call"

text \<open>
  A \<^verbatim>\<open>QDBusReply<T>\<close> holds an error and a value; it is valid when the error is
  not set. The default-constructed \<^verbatim>\<open>QDBusReply<void>()\<close> has no error.
\<close>

record 'a QDBusReply =
  m_error :: "string option"
  m_data :: 'a

definition isValid :: "'a QDBusReply \<Rightarrow> bool" where
  "isValid r = (m_error r = None)"

definition QDBusReply_void :: "unit QDBusReply" where
  "QDBusReply_void = \<lparr>m_error = None, m_data = ()\<rparr>"

text \<open>
  Everything the session depends on that lies outside the file. The remote service is seen
  through its answers: each answer is a function of the trace up to and including the
  round trip it answers, read at the C++ type the caller asks for. The conversion from
  the integer error code to \<^verbatim>\<open>SensorError\<close>, the comparison of two
  \<^verbatim>\<open>DataRange\<close>s and the outcome of opening the data channel are parameters as well.
\<close>

record 'r env =
  reply_void :: "'r event list \<Rightarrow> unit QDBusReply"
  reply_bool :: "'r event list \<Rightarrow> bool QDBusReply"
  reply_DataRangeList :: "'r event list \<Rightarrow> 'r list QDBusReply"
  reply_DataRange :: "'r event list \<Rightarrow> 'r QDBusReply"
  property_int :: "'r event list \<Rightarrow> c_int"
  property_uint :: "'r event list \<Rightarrow> c_uint"
  property_bool :: "'r event list \<Rightarrow> bool"
  property_QString :: "'r event list \<Rightarrow> string"
  SensorError_of_int :: "c_int \<Rightarrow> SensorError"
  DataRange_eq :: "'r \<Rightarrow> 'r \<Rightarrow> bool"
  initiateConnection :: "c_int \<Rightarrow> bool"

record 'r session =
  pimpl :: AbstractSensorChannelInterfaceImpl
  trace :: "'r event list"

subsection \<open>Round trips\<close>

definition callWithArgumentList :: "string \<Rightarrow> 'r QVariant list \<Rightarrow> 'r session \<Rightarrow> 'r session" where
  "callWithArgumentList name args s = s\<lparr>trace := trace s @ [(pimpl s, Method name args)]\<rparr>"

definition internalPropGet :: "string \<Rightarrow> 'r session \<Rightarrow> 'r session" where
  "internalPropGet name s = s\<lparr>trace := trace s @ [(pimpl s, Property name)]\<rparr>"

text \<open>The calls of a trace, without the snapshots.\<close>

definition calls :: "'r event list \<Rightarrow> 'r dbus_call list" where
  "calls t = map snd t"

subsection \<open>Construction and error state\<close>

definition Impl :: "c_int \<Rightarrow> AbstractSensorChannelInterfaceImpl" where
  "Impl sessionId =
     \<lparr>errorCode_m = SNoError, errorString_m = '''', sessionId_m = sessionId, interval_m = 0,
      bufferInterval_m = 0, bufferSize_m = 1,
      socketReader_m = \<lparr>socket_open = False, readyRead_slots = 0\<rparr>,
      running_m = False, standbyOverride_m = False\<rparr>"

definition setError :: "SensorError \<Rightarrow> string \<Rightarrow> 'r session \<Rightarrow> 'r session" where
  "setError errorCode errorString s =
     s\<lparr>pimpl := (pimpl s)\<lparr>errorCode_m := errorCode, errorString_m := errorString\<rparr>\<rparr>"

definition clearError :: "'r session \<Rightarrow> 'r session" where
  "clearError s = s\<lparr>pimpl := (pimpl s)\<lparr>errorCode_m := SNoError, errorString_m := ''''\<rparr>\<rparr>"

definition AbstractSensorChannelInterface :: "'r env \<Rightarrow> c_int \<Rightarrow> 'r session" where
  "AbstractSensorChannelInterface E sessionId =
     (let ok = initiateConnection E sessionId;
          p = Impl sessionId;
          s = \<lparr>pimpl = p\<lparr>socketReader_m := (socketReader_m p)\<lparr>socket_open := ok\<rparr>\<rparr>, trace = []\<rparr>
      in if \<not> ok then setError SClientSocketError ''Socket connection failed.'' s else s)"

subsection \<open>The calls that carry a session identifier\<close>

definition setInterval_session ::
  "'r env \<Rightarrow> c_int \<Rightarrow> c_int \<Rightarrow> 'r session \<Rightarrow> unit QDBusReply \<times> 'r session" where
  "setInterval_session E sessionId v s =
     (let s1 = clearError s;
          s2 = callWithArgumentList ''setInterval'' [QInt sessionId, QInt v] s1
      in (reply_void E (trace s2), s2))"

definition setBufferInterval_session ::
  "'r env \<Rightarrow> c_int \<Rightarrow> c_uint \<Rightarrow> 'r session \<Rightarrow> unit QDBusReply \<times> 'r session" where
  "setBufferInterval_session E sessionId v s =
     (let s1 = clearError s;
          s2 = callWithArgumentList ''setBufferInterval'' [QInt sessionId, QUInt v] s1
      in (reply_void E (trace s2), s2))"

definition setBufferSize_session ::
  "'r env \<Rightarrow> c_int \<Rightarrow> c_uint \<Rightarrow> 'r session \<Rightarrow> unit QDBusReply \<times> 'r session" where
  "setBufferSize_session E sessionId v s =
     (let s1 = clearError s;
          s2 = callWithArgumentList ''setBufferSize'' [QInt sessionId, QUInt v] s1
      in (reply_void E (trace s2), s2))"

definition setStandbyOverride_session ::
  "'r env \<Rightarrow> c_int \<Rightarrow> bool \<Rightarrow> 'r session \<Rightarrow> bool QDBusReply \<times> 'r session" where
  "setStandbyOverride_session E sessionId v s =
     (let s1 = clearError s;
          s2 = callWithArgumentList ''setStandbyOverride'' [QInt sessionId, QBool v] s1
      in (reply_bool E (trace s2), s2))"

subsection \<open>Start and stop\<close>

definition connect_readyRead :: "'r session \<Rightarrow> 'r session" where
  "connect_readyRead s =
     s\<lparr>pimpl := (pimpl s)\<lparr>socketReader_m :=
        (socketReader_m (pimpl s))\<lparr>readyRead_slots := Suc (readyRead_slots (socketReader_m (pimpl s)))\<rparr>\<rparr>\<rparr>"

definition disconnect_readyRead :: "'r session \<Rightarrow> 'r session" where
  "disconnect_readyRead s =
     s\<lparr>pimpl := (pimpl s)\<lparr>socketReader_m := (socketReader_m (pimpl s))\<lparr>readyRead_slots := 0\<rparr>\<rparr>\<rparr>"

definition start_session :: "'r env \<Rightarrow> c_int \<Rightarrow> 'r session \<Rightarrow> unit QDBusReply \<times> 'r session" where
  "start_session E sessionId s =
     (let s1 = clearError s in
      if running_m (pimpl s1) then (QDBusReply_void, s1)
      else
        let s2 = s1\<lparr>pimpl := (pimpl s1)\<lparr>running_m := True\<rparr>\<rparr>;
            s3 = connect_readyRead s2;
            s4 = callWithArgumentList ''start'' [QInt sessionId] s3;
            returnValue = reply_void E (trace s4);
            s5 = (if standbyOverride_m (pimpl s4)
                  then snd (setStandbyOverride_session E sessionId True s4) else s4);
            s6 = snd (setInterval_session E sessionId (interval_m (pimpl s5)) s5);
            s7 = snd (setBufferInterval_session E sessionId (bufferInterval_m (pimpl s6)) s6);
            s8 = snd (setBufferSize_session E sessionId (bufferSize_m (pimpl s7)) s7)
        in (returnValue, s8))"

definition stop_session :: "'r env \<Rightarrow> c_int \<Rightarrow> 'r session \<Rightarrow> unit QDBusReply \<times> 'r session" where
  "stop_session E sessionId s =
     (let s1 = clearError s in
      if \<not> running_m (pimpl s1) then (QDBusReply_void, s1)
      else
        let s2 = s1\<lparr>pimpl := (pimpl s1)\<lparr>running_m := False\<rparr>\<rparr>;
            s3 = disconnect_readyRead s2;
            s4 = snd (setStandbyOverride_session E sessionId False s3);
            s5 = snd (setInterval_session E sessionId 0 s4);
            s6 = callWithArgumentList ''stop'' [QInt sessionId] s5
        in (reply_void E (trace s6), s6))"

definition start :: "'r env \<Rightarrow> 'r session \<Rightarrow> unit QDBusReply \<times> 'r session" where
  "start E s = start_session E (sessionId_m (pimpl s)) s"

definition stop :: "'r env \<Rightarrow> 'r session \<Rightarrow> unit QDBusReply \<times> 'r session" where
  "stop E s = stop_session E (sessionId_m (pimpl s)) s"

subsection \<open>Configuration shadowing\<close>

definition interval :: "'r env \<Rightarrow> 'r session \<Rightarrow> c_int \<times> 'r session" where
  "interval E s =
     (if running_m (pimpl s)
      then (let s1 = internalPropGet ''interval'' s in (property_int E (trace s1), s1))
      else (interval_m (pimpl s), s))"

definition setInterval :: "'r env \<Rightarrow> c_int \<Rightarrow> 'r session \<Rightarrow> 'r session" where
  "setInterval E v s =
     (let s1 = s\<lparr>pimpl := (pimpl s)\<lparr>interval_m := v\<rparr>\<rparr>
      in if running_m (pimpl s1)
         then snd (setInterval_session E (sessionId_m (pimpl s1)) v s1) else s1)"

definition bufferInterval :: "'r env \<Rightarrow> 'r session \<Rightarrow> c_uint \<times> 'r session" where
  "bufferInterval E s =
     (if running_m (pimpl s)
      then (let s1 = internalPropGet ''bufferInterval'' s in (property_uint E (trace s1), s1))
      else (bufferInterval_m (pimpl s), s))"

definition setBufferInterval :: "'r env \<Rightarrow> c_uint \<Rightarrow> 'r session \<Rightarrow> 'r session" where
  "setBufferInterval E v s =
     (let s1 = s\<lparr>pimpl := (pimpl s)\<lparr>bufferInterval_m := v\<rparr>\<rparr>
      in if \<not> running_m (pimpl s1)
         then snd (setBufferInterval_session E (sessionId_m (pimpl s1)) v s1) else s1)"

definition bufferSize :: "'r env \<Rightarrow> 'r session \<Rightarrow> c_uint \<times> 'r session" where
  "bufferSize E s =
     (if running_m (pimpl s)
      then (let s1 = internalPropGet ''bufferSize'' s in (property_uint E (trace s1), s1))
      else (bufferSize_m (pimpl s), s))"

definition setBufferSize :: "'r env \<Rightarrow> c_uint \<Rightarrow> 'r session \<Rightarrow> 'r session" where
  "setBufferSize E v s =
     (let s1 = s\<lparr>pimpl := (pimpl s)\<lparr>bufferSize_m := v\<rparr>\<rparr>
      in if \<not> running_m (pimpl s1)
         then snd (setBufferSize_session E (sessionId_m (pimpl s1)) v s1) else s1)"

definition standbyOverride :: "'r env \<Rightarrow> 'r session \<Rightarrow> bool \<times> 'r session" where
  "standbyOverride E s =
     (if running_m (pimpl s)
      then (let s1 = internalPropGet ''standbyOverride'' s in (property_bool E (trace s1), s1))
      else (standbyOverride_m (pimpl s), s))"

text \<open>The \<^verbatim>\<open>QDBusReply<bool>\<close> is returned as \<^verbatim>\<open>bool\<close>: its value.\<close>

definition setStandbyOverride :: "'r env \<Rightarrow> bool \<Rightarrow> 'r session \<Rightarrow> bool \<times> 'r session" where
  "setStandbyOverride E override s =
     (let s1 = s\<lparr>pimpl := (pimpl s)\<lparr>standbyOverride_m := override\<rparr>\<rparr>;
          (r, s2) = setStandbyOverride_session E (sessionId_m (pimpl s1)) override s1
      in (m_data r, s2))"

subsection \<open>Error model\<close>

definition errorCodeInt :: "'r env \<Rightarrow> 'r session \<Rightarrow> c_int \<times> 'r session" where
  "errorCodeInt E s = (let s1 = internalPropGet ''errorCodeInt'' s in (property_int E (trace s1), s1))"

definition errorCode :: "'r env \<Rightarrow> 'r session \<Rightarrow> SensorError \<times> 'r session" where
  "errorCode E s =
     (if errorCode_m (pimpl s) \<noteq> SNoError then (errorCode_m (pimpl s), s)
      else (let (i, s1) = errorCodeInt E s in (SensorError_of_int E i, s1)))"

definition errorString :: "'r env \<Rightarrow> 'r session \<Rightarrow> string \<times> 'r session" where
  "errorString E s =
     (if errorCode_m (pimpl s) \<noteq> SNoError then (errorString_m (pimpl s), s)
      else (let s1 = internalPropGet ''errorString'' s in (property_QString E (trace s1), s1)))"

subsection \<open>Data-range negotiation\<close>

definition getAvailableDataRanges :: "'r env \<Rightarrow> 'r session \<Rightarrow> 'r list \<times> 'r session" where
  "getAvailableDataRanges E s =
     (let s1 = callWithArgumentList ''getAvailableDataRanges'' [] s
      in (m_data (reply_DataRangeList E (trace s1)), s1))"

definition getCurrentDataRange :: "'r env \<Rightarrow> 'r session \<Rightarrow> 'r \<times> 'r session" where
  "getCurrentDataRange E s =
     (let s1 = clearError s;
          s2 = callWithArgumentList ''getCurrentDataRange'' [] s1
      in (m_data (reply_DataRange E (trace s2)), s2))"

text \<open>
  \<^verbatim>\<open>QList::at(i)\<close> requires \<open>0 \<le> i < size()\<close> and asserts it; the source does not
  check the index before the call, so the failed assertion is a result of the model.
\<close>

datatype failure = QList_at_index_out_of_range

definition at :: "'a list \<Rightarrow> c_int \<Rightarrow> failure + 'a" where
  "at xs i =
     (if 0 \<le> sint i \<and> sint i < int (length xs) then Inr (xs ! nat (sint i))
      else Inl QList_at_index_out_of_range)"

definition setDataRangeIndex :: "'r env \<Rightarrow> c_int \<Rightarrow> 'r session \<Rightarrow> (failure + bool) \<times> 'r session" where
  "setDataRangeIndex E dataRangeIndex s =
     (let s1 = clearError s;
          s2 = callWithArgumentList ''setDataRangeIndex''
                 [QInt (sessionId_m (pimpl s1)), QInt dataRangeIndex] s1;
          (ranges, s3) = getAvailableDataRanges E s2;
          (range, s4) = getCurrentDataRange E s3
      in (case at ranges dataRangeIndex of
            Inl e \<Rightarrow> Inl e
          | Inr r \<Rightarrow> Inr (DataRange_eq E r range), s4))"

subsection \<open>The drain loop\<close>

text \<open>
  \<^verbatim>\<open>dataReceivedImpl()\<close> is pure virtual and \<^verbatim>\<open>bytesAvailable()\<close> belongs to the
  socket: both are parameters, over a state \<open>'c\<close> that holds whatever they read and
  write. The loop need not end, so not returning is the value \<open>None\<close>. The number beside
  the state counts the calls of \<^verbatim>\<open>dataReceivedImpl()\<close>.
\<close>

partial_function (option) dataReceived ::
  "('c \<Rightarrow> bool \<times> 'c) \<Rightarrow> ('c \<Rightarrow> int) \<Rightarrow> 'c \<Rightarrow> nat \<Rightarrow> ('c \<times> nat) option" where
  "dataReceived dataReceivedImpl bytesAvailable c n =
     (case dataReceivedImpl c of
        (ok, c1) \<Rightarrow>
          if \<not> ok then Some (c1, Suc n)
          else if bytesAvailable c1 \<noteq> 0 then dataReceived dataReceivedImpl bytesAvailable c1 (Suc n)
          else Some (c1, Suc n))"

declare dataReceived.simps [code]

text \<open>The state after \<open>k\<close> calls of \<^verbatim>\<open>dataReceivedImpl()\<close>, and what the \<open>k\<close>-th call returned.\<close>

primrec after :: "('c \<Rightarrow> bool \<times> 'c) \<Rightarrow> nat \<Rightarrow> 'c \<Rightarrow> 'c" where
  "after f 0 c = c"
| "after f (Suc k) c = after f k (snd (f c))"

definition attempt :: "('c \<Rightarrow> bool \<times> 'c) \<Rightarrow> nat \<Rightarrow> 'c \<Rightarrow> bool" where
  "attempt f k c = fst (f (after f (k - 1) c))"

text \<open>The loop leaves after the \<open>k\<close>-th call: the call reported no frame, or no byte is left.\<close>

definition leaves :: "('c \<Rightarrow> bool \<times> 'c) \<Rightarrow> ('c \<Rightarrow> int) \<Rightarrow> 'c \<Rightarrow> nat \<Rightarrow> bool" where
  "leaves f b c k = (\<not> attempt f k c \<or> b (after f k c) = 0)"

text \<open>The loop has left after some \<open>k\<close>-th call, and not before.\<close>

definition left_at ::
  "('c \<Rightarrow> bool \<times> 'c) \<Rightarrow> ('c \<Rightarrow> int) \<Rightarrow> 'c \<Rightarrow> nat \<Rightarrow> 'c \<times> nat \<Rightarrow> bool" where
  "left_at f b c n r =
     (\<exists>k. 1 \<le> k \<and> r = (after f k c, n + k) \<and> leaves f b c k \<and>
          (\<forall>m. 1 \<le> m \<and> m < k \<longrightarrow> \<not> leaves f b c m))"

subsection \<open>What the specification expects of start and stop\<close>

text \<open>
  These definitions follow the specification's words, to be compared with the functions
  above. After a start from the stopped state the error state is cleared, the session
  runs and the slot is connected once more; the calls are \<^verbatim>\<open>start\<close>, then
  \<^verbatim>\<open>setStandbyOverride\<close> when the cached flag is set, then the three cached
  settings.
\<close>

definition started :: "AbstractSensorChannelInterfaceImpl \<Rightarrow> AbstractSensorChannelInterfaceImpl" where
  "started p =
     p\<lparr>errorCode_m := SNoError, errorString_m := [], running_m := True,
       socketReader_m := (socketReader_m p)\<lparr>readyRead_slots := Suc (readyRead_slots (socketReader_m p))\<rparr>\<rparr>"

definition start_calls :: "AbstractSensorChannelInterfaceImpl \<Rightarrow> 'r dbus_call list" where
  "start_calls p =
     [Method ''start'' [QInt (sessionId_m p)]]
     @ (if standbyOverride_m p
        then [Method ''setStandbyOverride'' [QInt (sessionId_m p), QBool True]] else [])
     @ [Method ''setInterval'' [QInt (sessionId_m p), QInt (interval_m p)],
        Method ''setBufferInterval'' [QInt (sessionId_m p), QUInt (bufferInterval_m p)],
        Method ''setBufferSize'' [QInt (sessionId_m p), QUInt (bufferSize_m p)]]"

definition stopped :: "AbstractSensorChannelInterfaceImpl \<Rightarrow> AbstractSensorChannelInterfaceImpl" where
  "stopped p =
     p\<lparr>running_m := False,
       socketReader_m := (socketReader_m p)\<lparr>readyRead_slots := 0\<rparr>,
       errorCode_m := SNoError, errorString_m := []\<rparr>"

definition stop_calls :: "AbstractSensorChannelInterfaceImpl \<Rightarrow> 'r dbus_call list" where
  "stop_calls p =
     [Method ''setStandbyOverride'' [QInt (sessionId_m p), QBool False],
      Method ''setInterval'' [QInt (sessionId_m p), QInt 0],
      Method ''stop'' [QInt (sessionId_m p)]]"

definition is_method :: "string \<Rightarrow> 'r dbus_call \<Rightarrow> bool" where
  "is_method name c = (case c of Method n args \<Rightarrow> n = name | Property n \<Rightarrow> False)"

definition no_error :: "AbstractSensorChannelInterfaceImpl \<Rightarrow> bool" where
  "no_error p = (errorCode_m p = SNoError \<and> errorString_m p = [])"

text \<open>
  From \<open>s\<close> to \<open>s'\<close> the local error is cleared together with the round trips issued:
  when none is issued the error fields are as before; when some are, each is issued with
  the error cleared and the error is still clear afterwards.
\<close>

definition clears_when_issuing :: "'r session \<Rightarrow> 'r session \<Rightarrow> bool" where
  "clears_when_issuing s s' =
     (if trace s' = trace s
      then errorCode_m (pimpl s') = errorCode_m (pimpl s) \<and>
           errorString_m (pimpl s') = errorString_m (pimpl s)
      else no_error (pimpl s') \<and>
           list_all (\<lambda>e. no_error (fst e)) (drop (length (trace s)) (trace s')))"

subsection \<open>Concrete surroundings\<close>

text \<open>
  A remote service with fixed answers, over data ranges written as (min, max, resolution),
  for running the session on concrete inputs; \<open>ok\<close> is the outcome of opening the data
  channel.
\<close>

definition fixed_env :: "bool \<Rightarrow> (int \<times> int \<times> int) env" where
  "fixed_env ok =
     \<lparr>reply_void = (\<lambda>t. \<lparr>m_error = None, m_data = ()\<rparr>),
      reply_bool = (\<lambda>t. \<lparr>m_error = None, m_data = True\<rparr>),
      reply_DataRangeList = (\<lambda>t. \<lparr>m_error = None, m_data = [(0, 10, 1), (0, 100, 1)]\<rparr>),
      reply_DataRange = (\<lambda>t. \<lparr>m_error = None, m_data = (0, 100, 1)\<rparr>),
      property_int = (\<lambda>t. 0),
      property_uint = (\<lambda>t. 0),
      property_bool = (\<lambda>t. False),
      property_QString = (\<lambda>t. []),
      SensorError_of_int = (\<lambda>i. if i = 0 then SNoError else SOtherError i),
      DataRange_eq = (=),
      initiateConnection = (\<lambda>sessionId. ok)\<rparr>"

text \<open>
  A decoder of frames of \<open>k\<close> bytes over a byte buffer, for running the loop: it consumes a
  frame when \<open>k\<close> bytes are buffered and reports no frame otherwise.
\<close>

definition fixed_frame_Impl :: "nat \<Rightarrow> 8 word list \<Rightarrow> bool \<times> 8 word list" where
  "fixed_frame_Impl k buf = (if k \<le> length buf then (True, drop k buf) else (False, buf))"

definition buffer_bytesAvailable :: "8 word list \<Rightarrow> int" where
  "buffer_bytesAvailable buf = int (length buf)"


section \<open>Evaluating the operations\<close>

lemmas session_defs = callWithArgumentList_def internalPropGet_def clearError_def setError_def
  setInterval_session_def setBufferInterval_session_def setBufferSize_session_def
  setStandbyOverride_session_def connect_readyRead_def disconnect_readyRead_def calls_def

lemmas fixed_defs = AbstractSensorChannelInterface_def fixed_env_def Impl_def

lemma start_stopped:
  assumes "\<not> running_m (pimpl s)"
  shows "start E s =
     (reply_void E (trace s @ [(started (pimpl s), Method ''start'' [QInt (sessionId_m (pimpl s))])]),
      \<lparr>pimpl = started (pimpl s),
       trace = trace s @ map (Pair (started (pimpl s))) (start_calls (pimpl s))\<rparr>)"
  using assms
  by (simp add: start_def start_session_def session_defs Let_def started_def start_calls_def)

lemma start_running: "running_m (pimpl s) \<Longrightarrow> start E s = (QDBusReply_void, clearError s)"
  by (simp add: start_def start_session_def clearError_def Let_def)

lemma stop_running:
  assumes "running_m (pimpl s)"
  shows "stop E s =
     (reply_void E (trace s @ map (Pair (stopped (pimpl s))) (stop_calls (pimpl s))),
      \<lparr>pimpl = stopped (pimpl s),
       trace = trace s @ map (Pair (stopped (pimpl s))) (stop_calls (pimpl s))\<rparr>)"
  using assms
  by (simp add: stop_def stop_session_def session_defs Let_def stopped_def stop_calls_def)

lemma stop_stopped: "\<not> running_m (pimpl s) \<Longrightarrow> stop E s = (QDBusReply_void, clearError s)"
  by (simp add: stop_def stop_session_def clearError_def Let_def)

lemma setInterval_stopped:
  "\<not> running_m (pimpl s) \<Longrightarrow> setInterval E v s = s\<lparr>pimpl := (pimpl s)\<lparr>interval_m := v\<rparr>\<rparr>"
  by (simp add: setInterval_def Let_def)

lemma construct_failed:
  "\<not> initiateConnection E sessionId \<Longrightarrow>
   AbstractSensorChannelInterface E sessionId =
     \<lparr>pimpl = (Impl sessionId)\<lparr>errorCode_m := SClientSocketError,
                 errorString_m := ''Socket connection failed.''\<rparr>, trace = []\<rparr>"
  by (simp add: AbstractSensorChannelInterface_def setError_def Impl_def Let_def)

lemma construct_connected:
  "initiateConnection E sessionId \<Longrightarrow>
   AbstractSensorChannelInterface E sessionId =
     \<lparr>pimpl = (Impl sessionId)\<lparr>socketReader_m := \<lparr>socket_open = True, readyRead_slots = 0\<rparr>\<rparr>,
      trace = []\<rparr>"
  by (simp add: AbstractSensorChannelInterface_def Impl_def Let_def)

lemma setDataRangeIndex_eval:
  "setDataRangeIndex E i s =
    (let p = (pimpl s)\<lparr>errorCode_m := SNoError, errorString_m := []\<rparr>;
         t1 = trace s @ [(p, Method ''setDataRangeIndex'' [QInt (sessionId_m (pimpl s)), QInt i])];
         t2 = t1 @ [(p, Method ''getAvailableDataRanges'' [])];
         t3 = t2 @ [(p, Method ''getCurrentDataRange'' [])]
     in (case at (m_data (reply_DataRangeList E t2)) i of
           Inl e \<Rightarrow> Inl e
         | Inr r \<Rightarrow> Inr (DataRange_eq E r (m_data (reply_DataRange E t3))),
         \<lparr>pimpl = p, trace = t3\<rparr>))"
  by (simp add: setDataRangeIndex_def getAvailableDataRanges_def getCurrentDataRange_def
      session_defs Let_def cong: sum.case_cong)

section \<open>Start and stop\<close>

text \<open>
  C1. On a session that is not running, \<open>start\<close> leaves the session running with the
  error state cleared, and issues, in this order and each with \<open>running\<close> already set:
  the \<^verbatim>\<open>start\<close> call, then \<^verbatim>\<open>setStandbyOverride(sessionId, true)\<close> only if the
  cached flag is set, then \<^verbatim>\<open>setInterval\<close>, \<^verbatim>\<open>setBufferInterval\<close> and
  \<^verbatim>\<open>setBufferSize\<close> with the cached values; its result is the reply to the
  \<^verbatim>\<open>start\<close> call. In particular, after \<open>setInterval v\<close> on the stopped session the
  calls of \<open>start\<close> begin with \<^verbatim>\<open>start\<close> and hold exactly one \<^verbatim>\<open>setInterval\<close>,
  which carries \<open>v\<close>.
\<close>

theorem start_pushes_cached_configuration:
  assumes "\<not> running_m (pimpl s)"
  shows "(let p = started (pimpl s) in
          running_m p \<and>
          snd (start E s) = \<lparr>pimpl = p, trace = trace s @ map (Pair p) (start_calls (pimpl s))\<rparr> \<and>
          fst (start E s) = reply_void E (trace s @ [(p, Method ''start'' [QInt (sessionId_m (pimpl s))])]))
       \<and> (let new = drop (length (trace s)) (calls (trace (snd (start E (setInterval E v s)))))
          in new = start_calls ((pimpl s)\<lparr>interval_m := v\<rparr>) \<and>
             filter (is_method ''setInterval'') new =
               [Method ''setInterval'' [QInt (sessionId_m (pimpl s)), QInt v]] \<and>
             hd new = Method ''start'' [QInt (sessionId_m (pimpl s))])"
proof -
  let ?s = "s\<lparr>pimpl := (pimpl s)\<lparr>interval_m := v\<rparr>\<rparr>"
  have a: "\<not> running_m (pimpl ?s)" using assms by simp
  have b: "setInterval E v s = ?s" using assms by (rule setInterval_stopped)
  have c: "drop (length (trace s)) (calls (trace (snd (start E ?s))))
             = start_calls ((pimpl s)\<lparr>interval_m := v\<rparr>)"
    by (simp add: start_stopped [OF a] calls_def o_def)
  have d: "filter (is_method ''setInterval'') (start_calls ((pimpl s)\<lparr>interval_m := v\<rparr>))
             = [Method ''setInterval'' [QInt (sessionId_m (pimpl s)), QInt v]]"
    by (simp add: start_calls_def is_method_def)
  have e: "hd (start_calls ((pimpl s)\<lparr>interval_m := v\<rparr>))
             = Method ''start'' [QInt (sessionId_m (pimpl s))]"
    by (simp add: start_calls_def)
  have f: "running_m (started (pimpl s))" by (simp add: started_def)
  show ?thesis
    by (simp add: start_stopped [OF assms] b c d e f Let_def)
qed

theorem start_pushes_cached_configuration_witness:
  "\<not> running_m (pimpl (AbstractSensorChannelInterface (fixed_env True) 7))
   \<and> calls (trace (snd (start (fixed_env True)
         (setInterval (fixed_env True) 100 (AbstractSensorChannelInterface (fixed_env True) 7)))))
       = [Method ''start'' [QInt 7], Method ''setInterval'' [QInt 7, QInt 100],
          Method ''setBufferInterval'' [QInt 7, QUInt 0], Method ''setBufferSize'' [QInt 7, QUInt 1]]"
proof -
  let ?s = "AbstractSensorChannelInterface (fixed_env True) 7"
  have h: "\<not> running_m (pimpl ?s)" by (simp add: fixed_defs)
  have t: "trace ?s = []" by (simp add: fixed_defs)
  have p: "start_calls ((pimpl ?s)\<lparr>interval_m := 100\<rparr>)
       = [Method ''start'' [QInt 7], Method ''setInterval'' [QInt 7, QInt 100],
          Method ''setBufferInterval'' [QInt 7, QUInt 0], Method ''setBufferSize'' [QInt 7, QUInt 1]]"
    by (simp add: fixed_defs start_calls_def)
  from start_pushes_cached_configuration [OF h, of "fixed_env True" 100] h t p
  show ?thesis by (simp add: Let_def)
qed

text \<open>
  C4, as the code has it. \<open>start\<close> on a running session and \<open>stop\<close> on a session that is
  not running return a valid reply and issue no round trip, but both clear the local
  error state first: the session is left unchanged except that the error code and the
  error message are reset, and unchanged altogether when no local error was recorded.
\<close>

theorem start_stop_in_place_only_clear_error:
  "(running_m (pimpl s) \<longrightarrow> start E s = (QDBusReply_void, clearError s))
   \<and> (\<not> running_m (pimpl s) \<longrightarrow> stop E s = (QDBusReply_void, clearError s))
   \<and> isValid QDBusReply_void
   \<and> trace (clearError s) = trace s
   \<and> pimpl (clearError s) = (pimpl s)\<lparr>errorCode_m := SNoError, errorString_m := []\<rparr>
   \<and> (no_error (pimpl s) \<longrightarrow> clearError s = s)"
  by (simp add: start_running stop_stopped isValid_def QDBusReply_void_def clearError_def no_error_def)

theorem start_stop_in_place_only_clear_error_witness:
  "\<not> running_m (pimpl (AbstractSensorChannelInterface (fixed_env True) 7))
   \<and> stop (fixed_env True) (AbstractSensorChannelInterface (fixed_env True) 7)
       = (QDBusReply_void, AbstractSensorChannelInterface (fixed_env True) 7)"
proof -
  let ?s = "AbstractSensorChannelInterface (fixed_env True) 7"
  have h: "\<not> running_m (pimpl ?s)" by (simp add: fixed_defs)
  have n: "no_error (pimpl ?s)" by (simp add: fixed_defs no_error_def)
  from start_stop_in_place_only_clear_error [of ?s "fixed_env True"] h n
  show ?thesis by simp
qed

text \<open>
  The claim as stated fails: a session whose data channel could not be opened is not
  running and holds a local error; \<open>stop\<close> on it issues nothing but changes the session,
  and \<open>errorCode\<close> no longer returns the recorded error afterwards.
\<close>

theorem stop_when_stopped_changes_state:
  "\<not> running_m (pimpl (AbstractSensorChannelInterface (fixed_env False) 7))
   \<and> snd (stop (fixed_env False) (AbstractSensorChannelInterface (fixed_env False) 7))
       \<noteq> AbstractSensorChannelInterface (fixed_env False) 7
   \<and> fst (errorCode (fixed_env False) (AbstractSensorChannelInterface (fixed_env False) 7))
       = SClientSocketError
   \<and> fst (errorCode (fixed_env False)
        (snd (stop (fixed_env False) (AbstractSensorChannelInterface (fixed_env False) 7))))
       = SNoError"
  by (simp add: fixed_defs setError_def stop_def stop_session_def clearError_def errorCode_def
      errorCodeInt_def internalPropGet_def Let_def)

text \<open>
  C9. \<open>stop\<close> on a running session leaves the cached standby flag as it was, while the
  calls it issues force the remote flag to false. A preference set to true by
  \<open>setStandbyOverride\<close> therefore survives the stop, and the next \<open>start\<close> issues
  \<^verbatim>\<open>setStandbyOverride(sessionId, true)\<close> right after its \<^verbatim>\<open>start\<close> call.
\<close>

theorem stop_keeps_cached_standbyOverride:
  assumes "running_m (pimpl s)"
  shows "(let sid = sessionId_m (pimpl s); s1 = snd (stop E s) in
          standbyOverride_m (pimpl s1) = standbyOverride_m (pimpl s) \<and>
          drop (length (trace s)) (calls (trace s1)) =
            [Method ''setStandbyOverride'' [QInt sid, QBool False],
             Method ''setInterval'' [QInt sid, QInt 0], Method ''stop'' [QInt sid]])
       \<and> (let sid = sessionId_m (pimpl s);
               s1 = snd (setStandbyOverride E True s);
               s2 = snd (stop E s1);
               s3 = snd (start E s2)
           in standbyOverride_m (pimpl s1) \<and> standbyOverride_m (pimpl s2) \<and>
              take 2 (drop (length (trace s2)) (calls (trace s3))) =
                [Method ''start'' [QInt sid], Method ''setStandbyOverride'' [QInt sid, QBool True]])"
proof -
  let ?s1 = "snd (setStandbyOverride E True s)"
  have s1: "pimpl ?s1 = (pimpl s)\<lparr>standbyOverride_m := True, errorCode_m := SNoError, errorString_m := []\<rparr>"
    by (simp add: setStandbyOverride_def session_defs Let_def)
  have r1: "running_m (pimpl ?s1)" using assms by (simp add: s1)
  let ?s2 = "snd (stop E ?s1)"
  have s2: "pimpl ?s2 = stopped (pimpl ?s1)" by (simp add: stop_running [OF r1])
  have r2: "\<not> running_m (pimpl ?s2)" by (simp add: s2 stopped_def)
  have a: "standbyOverride_m (pimpl ?s2)" by (simp add: s2 s1 stopped_def)
  have b: "take 2 (drop (length (trace ?s2)) (calls (trace (snd (start E ?s2))))) =
             [Method ''start'' [QInt (sessionId_m (pimpl s))],
              Method ''setStandbyOverride'' [QInt (sessionId_m (pimpl s)), QBool True]]"
    by (simp add: start_stopped [OF r2] calls_def o_def)
       (simp add: start_calls_def s2 s1 stopped_def)
  have c: "standbyOverride_m (pimpl (snd (stop E s))) = standbyOverride_m (pimpl s)"
    by (simp add: stop_running [OF assms] stopped_def)
  have d: "drop (length (trace s)) (calls (trace (snd (stop E s)))) =
            [Method ''setStandbyOverride'' [QInt (sessionId_m (pimpl s)), QBool False],
             Method ''setInterval'' [QInt (sessionId_m (pimpl s)), QInt 0],
             Method ''stop'' [QInt (sessionId_m (pimpl s))]]"
    by (simp add: stop_running [OF assms] calls_def o_def stop_calls_def)
  show ?thesis
    unfolding Let_def using a b c d s1 by simp
qed

theorem stop_keeps_cached_standbyOverride_witness:
  "running_m (pimpl (snd (start (fixed_env True) (AbstractSensorChannelInterface (fixed_env True) 7))))
   \<and> standbyOverride_m (pimpl (snd (stop (fixed_env True)
        (snd (setStandbyOverride (fixed_env True) True
          (snd (start (fixed_env True) (AbstractSensorChannelInterface (fixed_env True) 7))))))))"
proof -
  let ?s0 = "AbstractSensorChannelInterface (fixed_env True) 7"
  have h0: "\<not> running_m (pimpl ?s0)" by (simp add: fixed_defs)
  have h: "running_m (pimpl (snd (start (fixed_env True) ?s0)))"
    by (simp add: start_stopped [OF h0] started_def)
  from stop_keeps_cached_standbyOverride [OF h, of "fixed_env True"] h
  show ?thesis by (simp add: Let_def)
qed

section \<open>Configuration shadowing\<close>

text \<open>
  C2. \<open>setInterval\<close> always caches the value and issues the \<^verbatim>\<open>setInterval\<close> call
  exactly when the session is running; \<open>setBufferInterval\<close> and \<open>setBufferSize\<close> always
  cache the value and issue their call exactly when the session is not running. Each of
  the three getters reads the remote property while running and returns the cached value,
  with no round trip, while stopped.
\<close>

theorem setters_follow_shadowing_table:
  "(let sid = sessionId_m (pimpl s) in
    interval_m (pimpl (setInterval E v s)) = v \<and>
    calls (trace (setInterval E v s)) = calls (trace s) @
      (if running_m (pimpl s) then [Method ''setInterval'' [QInt sid, QInt v]] else []) \<and>
    bufferInterval_m (pimpl (setBufferInterval E u s)) = u \<and>
    calls (trace (setBufferInterval E u s)) = calls (trace s) @
      (if \<not> running_m (pimpl s) then [Method ''setBufferInterval'' [QInt sid, QUInt u]] else []) \<and>
    bufferSize_m (pimpl (setBufferSize E u s)) = u \<and>
    calls (trace (setBufferSize E u s)) = calls (trace s) @
      (if \<not> running_m (pimpl s) then [Method ''setBufferSize'' [QInt sid, QUInt u]] else []))
   \<and> interval E s =
      (if running_m (pimpl s)
       then (property_int E (trace s @ [(pimpl s, Property ''interval'')]),
             s\<lparr>trace := trace s @ [(pimpl s, Property ''interval'')]\<rparr>)
       else (interval_m (pimpl s), s))
   \<and> bufferInterval E s =
      (if running_m (pimpl s)
       then (property_uint E (trace s @ [(pimpl s, Property ''bufferInterval'')]),
             s\<lparr>trace := trace s @ [(pimpl s, Property ''bufferInterval'')]\<rparr>)
       else (bufferInterval_m (pimpl s), s))
   \<and> bufferSize E s =
      (if running_m (pimpl s)
       then (property_uint E (trace s @ [(pimpl s, Property ''bufferSize'')]),
             s\<lparr>trace := trace s @ [(pimpl s, Property ''bufferSize'')]\<rparr>)
       else (bufferSize_m (pimpl s), s))"
  by (simp add: setInterval_def setBufferInterval_def setBufferSize_def interval_def
      bufferInterval_def bufferSize_def session_defs Let_def)

theorem setters_follow_shadowing_table_witness:
  "calls (trace (setInterval (fixed_env True) 50
      (snd (start (fixed_env True) (AbstractSensorChannelInterface (fixed_env True) 7)))))
     = calls (trace (snd (start (fixed_env True) (AbstractSensorChannelInterface (fixed_env True) 7))))
       @ [Method ''setInterval'' [QInt 7, QInt 50]]
   \<and> calls (trace (setBufferInterval (fixed_env True) 5
      (snd (start (fixed_env True) (AbstractSensorChannelInterface (fixed_env True) 7)))))
     = calls (trace (snd (start (fixed_env True) (AbstractSensorChannelInterface (fixed_env True) 7))))
   \<and> calls (trace (setBufferInterval (fixed_env True) 5 (AbstractSensorChannelInterface (fixed_env True) 7)))
     = [Method ''setBufferInterval'' [QInt 7, QUInt 5]]
   \<and> bufferInterval (fixed_env True)
        (setBufferInterval (fixed_env True) 5 (AbstractSensorChannelInterface (fixed_env True) 7))
     = (5, setBufferInterval (fixed_env True) 5 (AbstractSensorChannelInterface (fixed_env True) 7))"
proof -
  let ?E = "fixed_env True"
  let ?s0 = "AbstractSensorChannelInterface ?E 7"
  let ?s1 = "snd (start ?E ?s0)"
  have h0: "\<not> running_m (pimpl ?s0)" "sessionId_m (pimpl ?s0) = 7" "trace ?s0 = []"
    by (simp_all add: fixed_defs)
  have h1: "running_m (pimpl ?s1)" "sessionId_m (pimpl ?s1) = 7"
    by (simp_all add: start_stopped [OF h0(1)] started_def h0)
  let ?s2 = "setBufferInterval ?E 5 ?s0"
  have h2: "\<not> running_m (pimpl ?s2)" "bufferInterval_m (pimpl ?s2) = 5"
    using h0 by (simp_all add: setBufferInterval_def session_defs Let_def)
  from setters_follow_shadowing_table [of ?s1 ?E 50 5]
       setters_follow_shadowing_table [of ?s0 ?E 50 5]
       setters_follow_shadowing_table [of ?s2 ?E 50 5] h0 h1 h2
  show ?thesis by (simp add: Let_def calls_def)
qed

text \<open>
  C5, as the code has it. Each of the four mutators clears the local error state together
  with the call it issues: \<open>setInterval\<close> issues its call, and clears the error, exactly
  when the session is running; \<open>setBufferInterval\<close> and \<open>setBufferSize\<close> exactly when it is
  not running; \<open>setStandbyOverride\<close> always. A mutator that issues no call leaves the
  error code and the error message as they were. The four calls that carry a session
  identifier always clear the error.
\<close>

theorem mutators_clear_error_when_issuing:
  "clears_when_issuing s (setInterval E v s)
   \<and> clears_when_issuing s (setBufferInterval E u s)
   \<and> clears_when_issuing s (setBufferSize E u s)
   \<and> clears_when_issuing s (snd (setStandbyOverride E b s))
   \<and> (trace (setInterval E v s) = trace s \<longleftrightarrow> \<not> running_m (pimpl s))
   \<and> (trace (setBufferInterval E u s) = trace s \<longleftrightarrow> running_m (pimpl s))
   \<and> (trace (setBufferSize E u s) = trace s \<longleftrightarrow> running_m (pimpl s))
   \<and> trace (snd (setStandbyOverride E b s)) \<noteq> trace s
   \<and> no_error (pimpl (snd (setInterval_session E i v s)))
   \<and> no_error (pimpl (snd (setBufferInterval_session E i u s)))
   \<and> no_error (pimpl (snd (setBufferSize_session E i u s)))
   \<and> no_error (pimpl (snd (setStandbyOverride_session E i b s)))"
  by (simp add: clears_when_issuing_def no_error_def setInterval_def setBufferInterval_def
      setBufferSize_def setStandbyOverride_def session_defs Let_def)

theorem mutators_clear_error_when_issuing_witness:
  "errorCode_m (pimpl (AbstractSensorChannelInterface (fixed_env False) 7)) = SClientSocketError
   \<and> errorCode_m (pimpl (setBufferInterval (fixed_env False) 5
        (AbstractSensorChannelInterface (fixed_env False) 7))) = SNoError
   \<and> errorCode_m (pimpl (snd (setStandbyOverride (fixed_env False) True
        (AbstractSensorChannelInterface (fixed_env False) 7)))) = SNoError"
proof -
  let ?E = "fixed_env False"
  let ?s = "AbstractSensorChannelInterface ?E 7"
  have h: "\<not> running_m (pimpl ?s)" "errorCode_m (pimpl ?s) = SClientSocketError"
    by (simp_all add: fixed_defs setError_def)
  note T = mutators_clear_error_when_issuing [of ?s ?E 100 5 True 0]
  have c2: "clears_when_issuing ?s (setBufferInterval ?E 5 ?s)"
    and c4: "clears_when_issuing ?s (snd (setStandbyOverride ?E True ?s))"
    and t4: "trace (snd (setStandbyOverride ?E True ?s)) \<noteq> trace ?s"
    using T by simp_all
  have t2: "trace (setBufferInterval ?E 5 ?s) \<noteq> trace ?s"
    using T h(1) by simp
  from c2 t2 have "no_error (pimpl (setBufferInterval ?E 5 ?s))"
    by (simp add: clears_when_issuing_def)
  moreover from c4 t4 have "no_error (pimpl (snd (setStandbyOverride ?E True ?s)))"
    by (simp add: clears_when_issuing_def)
  ultimately show ?thesis using h(2) by (simp add: no_error_def)
qed

text \<open>
  The claim as stated fails: \<open>setInterval\<close> on a session that is not running issues no
  call and does not clear the error. After a failed channel open the recorded error is
  still there, and \<open>errorCode\<close> still returns it.
\<close>

theorem setInterval_while_stopped_keeps_error:
  "\<not> running_m (pimpl (AbstractSensorChannelInterface (fixed_env False) 7))
   \<and> errorCode_m (pimpl (AbstractSensorChannelInterface (fixed_env False) 7)) = SClientSocketError
   \<and> errorCode_m (pimpl (setInterval (fixed_env False) 100
         (AbstractSensorChannelInterface (fixed_env False) 7))) = SClientSocketError
   \<and> fst (errorCode (fixed_env False) (setInterval (fixed_env False) 100
         (AbstractSensorChannelInterface (fixed_env False) 7))) = SClientSocketError"
  by (simp add: fixed_defs setError_def setInterval_def errorCode_def Let_def)

section \<open>Error model\<close>

text \<open>
  C3. When a local error is recorded, \<open>errorCode\<close> and \<open>errorString\<close> return the recorded
  kind and message and make no round trip; only when none is recorded do they read the
  remote \<^verbatim>\<open>errorCodeInt\<close> and \<^verbatim>\<open>errorString\<close> properties. No property read writes
  the session's fields, so a recorded local error stays until \<open>clearError\<close> resets it.
\<close>

theorem local_error_takes_precedence:
  "(errorCode_m (pimpl s) \<noteq> SNoError \<longrightarrow>
      errorCode E s = (errorCode_m (pimpl s), s) \<and> errorString E s = (errorString_m (pimpl s), s))
   \<and> (errorCode_m (pimpl s) = SNoError \<longrightarrow>
      errorCode E s =
        (SensorError_of_int E (property_int E (trace s @ [(pimpl s, Property ''errorCodeInt'')])),
         s\<lparr>trace := trace s @ [(pimpl s, Property ''errorCodeInt'')]\<rparr>) \<and>
      errorString E s =
        (property_QString E (trace s @ [(pimpl s, Property ''errorString'')]),
         s\<lparr>trace := trace s @ [(pimpl s, Property ''errorString'')]\<rparr>))
   \<and> pimpl (snd (errorCode E s)) = pimpl s \<and> pimpl (snd (errorString E s)) = pimpl s
   \<and> pimpl (snd (errorCodeInt E s)) = pimpl s \<and> pimpl (snd (interval E s)) = pimpl s
   \<and> pimpl (snd (bufferInterval E s)) = pimpl s \<and> pimpl (snd (bufferSize E s)) = pimpl s
   \<and> pimpl (snd (standbyOverride E s)) = pimpl s
   \<and> no_error (pimpl (clearError s))"
  by (simp add: errorCode_def errorString_def errorCodeInt_def interval_def bufferInterval_def
      bufferSize_def standbyOverride_def internalPropGet_def clearError_def no_error_def Let_def)

theorem local_error_takes_precedence_witness:
  "errorCode_m (pimpl (AbstractSensorChannelInterface (fixed_env False) 7)) \<noteq> SNoError
   \<and> errorString (fixed_env False) (AbstractSensorChannelInterface (fixed_env False) 7)
       = (''Socket connection failed.'', AbstractSensorChannelInterface (fixed_env False) 7)
   \<and> errorCode_m (pimpl (AbstractSensorChannelInterface (fixed_env True) 7)) = SNoError
   \<and> fst (errorCode (fixed_env True) (AbstractSensorChannelInterface (fixed_env True) 7)) = SNoError
   \<and> calls (trace (snd (errorCode (fixed_env True) (AbstractSensorChannelInterface (fixed_env True) 7))))
       = [Property ''errorCodeInt'']"
proof -
  let ?f = "AbstractSensorChannelInterface (fixed_env False) 7"
  let ?s = "AbstractSensorChannelInterface (fixed_env True) 7"
  have f: "errorCode_m (pimpl ?f) = SClientSocketError"
    "errorString_m (pimpl ?f) = ''Socket connection failed.''"
    by (simp_all add: fixed_defs setError_def)
  have s: "errorCode_m (pimpl ?s) = SNoError" "trace ?s = []"
    by (simp_all add: fixed_defs)
  have e: "SensorError_of_int (fixed_env True) (property_int (fixed_env True) t) = SNoError" for t
    by (simp add: fixed_env_def)
  from local_error_takes_precedence [of ?f "fixed_env False"]
       local_error_takes_precedence [of ?s "fixed_env True"] f s e
  show ?thesis by (simp add: calls_def)
qed

text \<open>
  C7. When the data channel cannot be opened, the constructor records
  \<^verbatim>\<open>SClientSocketError\<close> with its message and makes no round trip: \<open>errorCode\<close> and
  \<open>errorString\<close> return the recorded error at once. The session is otherwise as after a
  successful construction, and the control channel works: \<open>start\<close> issues its usual
  calls and clears the error.
\<close>

theorem constructor_records_connection_error:
  assumes "\<not> initiateConnection E sessionId"
  shows "(let s = AbstractSensorChannelInterface E sessionId in
          errorCode E s = (SClientSocketError, s) \<and>
          errorString E s = (''Socket connection failed.'', s) \<and>
          trace s = [] \<and>
          s = setError SClientSocketError ''Socket connection failed.''
                \<lparr>pimpl = Impl sessionId, trace = []\<rparr> \<and>
          calls (trace (snd (start E s))) = start_calls (Impl sessionId) \<and>
          no_error (pimpl (snd (start E s))))"
proof -
  let ?s = "AbstractSensorChannelInterface E sessionId"
  have a: "\<not> running_m (pimpl ?s)" by (simp add: construct_failed [OF assms] Impl_def)
  show ?thesis
    by (simp add: Let_def start_stopped [OF a])
       (simp add: construct_failed [OF assms] errorCode_def errorString_def setError_def calls_def
          o_def start_calls_def started_def no_error_def Impl_def)
qed

theorem constructor_records_connection_error_witness:
  "\<not> initiateConnection (fixed_env False) 7
   \<and> fst (errorCode (fixed_env False) (AbstractSensorChannelInterface (fixed_env False) 7))
       = SClientSocketError
   \<and> calls (trace (snd (start (fixed_env False) (AbstractSensorChannelInterface (fixed_env False) 7))))
       = [Method ''start'' [QInt 7], Method ''setInterval'' [QInt 7, QInt 0],
          Method ''setBufferInterval'' [QInt 7, QUInt 0], Method ''setBufferSize'' [QInt 7, QUInt 1]]"
proof -
  have h: "\<not> initiateConnection (fixed_env False) 7" by (simp add: fixed_env_def)
  have p: "start_calls (Impl 7) = [Method ''start'' [QInt 7], Method ''setInterval'' [QInt 7, QInt 0],
          Method ''setBufferInterval'' [QInt 7, QUInt 0], Method ''setBufferSize'' [QInt 7, QUInt 1]]"
    by (simp add: start_calls_def Impl_def)
  let ?s = "AbstractSensorChannelInterface (fixed_env False) 7"
  note T = constructor_records_connection_error [OF h, unfolded Let_def]
  have a: "errorCode (fixed_env False) ?s = (SClientSocketError, ?s)"
    using T by (rule conjunct1)
  have b: "calls (trace (snd (start (fixed_env False) ?s))) = start_calls (Impl 7)"
    using T by blast
  show ?thesis using h a b p by simp
qed

section \<open>Data-range negotiation\<close>

text \<open>
  C6. \<open>setDataRangeIndex i\<close> first issues \<^verbatim>\<open>setDataRangeIndex(sessionId, i)\<close>, then
  fetches the list of available data ranges, then the current data range, and returns
  true if and only if the element at position \<open>i\<close> of that list equals that range.
\<close>

theorem setDataRangeIndex_verifies:
  "(let p = (pimpl s)\<lparr>errorCode_m := SNoError, errorString_m := []\<rparr>;
        t1 = trace s @ [(p, Method ''setDataRangeIndex'' [QInt (sessionId_m (pimpl s)), QInt i])];
        t2 = t1 @ [(p, Method ''getAvailableDataRanges'' [])];
        t3 = t2 @ [(p, Method ''getCurrentDataRange'' [])];
        ranges = m_data (reply_DataRangeList E t2);
        range = m_data (reply_DataRange E t3)
    in snd (setDataRangeIndex E i s) = \<lparr>pimpl = p, trace = t3\<rparr> \<and>
       (fst (setDataRangeIndex E i s) = Inr True \<longleftrightarrow>
          0 \<le> sint i \<and> sint i < int (length ranges) \<and> DataRange_eq E (ranges ! nat (sint i)) range))"
  by (auto simp add: setDataRangeIndex_eval Let_def at_def)

theorem setDataRangeIndex_verifies_witness:
  "fst (setDataRangeIndex (fixed_env True) 1 (AbstractSensorChannelInterface (fixed_env True) 7))
     = Inr True
   \<and> calls (trace (snd (setDataRangeIndex (fixed_env True) 1
        (AbstractSensorChannelInterface (fixed_env True) 7))))
     = [Method ''setDataRangeIndex'' [QInt 7, QInt 1], Method ''getAvailableDataRanges'' [],
        Method ''getCurrentDataRange'' []]"
proof -
  let ?E = "fixed_env True"
  let ?s = "AbstractSensorChannelInterface ?E 7"
  have s: "trace ?s = []" "sessionId_m (pimpl ?s) = 7" by (simp_all add: fixed_defs)
  have e: "m_data (reply_DataRangeList ?E t) = [(0, 10, 1), (0, 100, 1)]"
    "m_data (reply_DataRange ?E t) = (0, 100, 1)" "DataRange_eq ?E = (=)" for t
    by (simp_all add: fixed_env_def)
  from setDataRangeIndex_verifies [of ?s 1 ?E] s e
  show ?thesis by (simp add: Let_def calls_def)
qed

text \<open>
  C10. The list is indexed without a check. When \<open>0 \<le> i < length\<close> of the fetched list,
  \<open>setDataRangeIndex i\<close> returns the comparison of the element at \<open>i\<close> with the current
  range, and the out-of-range branch is not reached; for every other \<open>i\<close> the result is
  the failed assertion of \<^verbatim>\<open>QList::at\<close>.
\<close>

theorem setDataRangeIndex_in_bounds:
  "(let p = (pimpl s)\<lparr>errorCode_m := SNoError, errorString_m := []\<rparr>;
        t1 = trace s @ [(p, Method ''setDataRangeIndex'' [QInt (sessionId_m (pimpl s)), QInt i])];
        t2 = t1 @ [(p, Method ''getAvailableDataRanges'' [])];
        t3 = t2 @ [(p, Method ''getCurrentDataRange'' [])];
        ranges = m_data (reply_DataRangeList E t2);
        range = m_data (reply_DataRange E t3)
    in (0 \<le> sint i \<and> sint i < int (length ranges) \<longrightarrow>
          fst (setDataRangeIndex E i s) = Inr (DataRange_eq E (ranges ! nat (sint i)) range)) \<and>
       (\<not> (0 \<le> sint i \<and> sint i < int (length ranges)) \<longrightarrow>
          fst (setDataRangeIndex E i s) = Inl QList_at_index_out_of_range))"
  by (simp add: setDataRangeIndex_eval Let_def at_def)

theorem setDataRangeIndex_in_bounds_witness:
  "fst (setDataRangeIndex (fixed_env True) 0 (AbstractSensorChannelInterface (fixed_env True) 7))
     = Inr False
   \<and> fst (setDataRangeIndex (fixed_env True) 2 (AbstractSensorChannelInterface (fixed_env True) 7))
     = Inl QList_at_index_out_of_range
   \<and> fst (setDataRangeIndex (fixed_env True) (- 1) (AbstractSensorChannelInterface (fixed_env True) 7))
     = Inl QList_at_index_out_of_range"
proof -
  let ?E = "fixed_env True"
  let ?s = "AbstractSensorChannelInterface ?E 7"
  have e: "m_data (reply_DataRangeList ?E t) = [(0, 10, 1), (0, 100, 1)]"
    "m_data (reply_DataRange ?E t) = (0, 100, 1)" "DataRange_eq ?E = (=)" for t
    by (simp_all add: fixed_env_def)
  from setDataRangeIndex_in_bounds [of ?s 0 ?E] setDataRangeIndex_in_bounds [of ?s 2 ?E]
       setDataRangeIndex_in_bounds [of ?s "- 1" ?E] e
  show ?thesis by (simp add: Let_def)
qed

section \<open>The drain loop\<close>

lemma dataReceived_unfold:
  "dataReceived f b c n =
     (if \<not> fst (f c) then Some (snd (f c), Suc n)
      else if b (snd (f c)) \<noteq> 0 then dataReceived f b (snd (f c)) (Suc n)
      else Some (snd (f c), Suc n))"
  by (subst dataReceived.simps) (simp split: prod.splits)

lemma after_Suc: "after f (Suc k) c = snd (f (after f k c))"
  by (induction k arbitrary: c) simp_all

lemma leaves_Suc: "1 \<le> m \<Longrightarrow> leaves f b c (Suc m) = leaves f b (snd (f c)) m"
  by (cases m) (simp_all add: leaves_def attempt_def)

lemma leaves_1: "leaves f b c (Suc 0) = (\<not> fst (f c) \<or> b (snd (f c)) = 0)"
  by (simp add: leaves_def attempt_def)

text \<open>If the loop can leave after the \<open>k\<close>-th call and not before, it returns there.\<close>

lemma dataReceived_returns:
  "1 \<le> k \<Longrightarrow> leaves f b c k \<Longrightarrow> (\<forall>m. 1 \<le> m \<and> m < k \<longrightarrow> \<not> leaves f b c m)
   \<Longrightarrow> dataReceived f b c n = Some (after f k c, n + k)"
proof (induction k arbitrary: c n)
  case 0
  then show ?case by simp
next
  case (Suc k)
  show ?case
  proof (cases "k = 0")
    case True
    with Suc.prems(2) have "\<not> fst (f c) \<or> b (snd (f c)) = 0" by (simp add: leaves_1)
    with True show ?thesis
      by (subst dataReceived_unfold) auto
  next
    case False
    then have k: "1 \<le> k" by simp
    from Suc.prems(3) k have "\<not> leaves f b c (Suc 0)" by simp
    then have go: "fst (f c)" "b (snd (f c)) \<noteq> 0" by (simp_all add: leaves_1)
    have l: "leaves f b (snd (f c)) k" using Suc.prems(2) k by (simp add: leaves_Suc)
    have nl: "\<forall>m. 1 \<le> m \<and> m < k \<longrightarrow> \<not> leaves f b (snd (f c)) m"
    proof (intro allI impI)
      fix m assume m: "1 \<le> m \<and> m < k"
      then have "\<not> leaves f b c (Suc m)" using Suc.prems(3) by simp
      with m show "\<not> leaves f b (snd (f c)) m" by (simp add: leaves_Suc)
    qed
    have "dataReceived f b (snd (f c)) (Suc n) = Some (after f k (snd (f c)), Suc n + k)"
      using Suc.IH [OF k l nl] .
    with go show ?thesis
      by (subst dataReceived_unfold) simp
  qed
qed

text \<open>If the loop returns, it has left after some \<open>k\<close>-th call and not before.\<close>

lemma dataReceived_only:
  assumes "dataReceived f b c n = Some r"
  shows "left_at f b c n r"
proof (rule dataReceived.raw_induct [where P = left_at, OF _ assms])
  fix rec :: "('c \<Rightarrow> bool \<times> 'c) \<Rightarrow> ('c \<Rightarrow> int) \<Rightarrow> 'c \<Rightarrow> nat \<Rightarrow> ('c \<times> nat) option"
  fix f b c n r
  assume IH: "\<And>f b c n r. rec f b c n = Some r \<Longrightarrow> left_at f b c n r"
  assume step: "(case f c of
        (ok, c1) \<Rightarrow>
          if \<not> ok then Some (c1, Suc n)
          else if b c1 \<noteq> 0 then rec f b c1 (Suc n)
          else Some (c1, Suc n)) = Some r"
  obtain ok c1 where fc: "f c = (ok, c1)" by (cases "f c")
  from step fc have body:
    "(if \<not> ok then Some (c1, Suc n)
      else if b c1 \<noteq> 0 then rec f b c1 (Suc n) else Some (c1, Suc n)) = Some r"
    by simp
  have "\<exists>k. 1 \<le> k \<and> r = (after f k c, n + k) \<and> leaves f b c k \<and>
             (\<forall>m. 1 \<le> m \<and> m < k \<longrightarrow> \<not> leaves f b c m)"
  proof (cases "\<not> ok \<or> b c1 = 0")
    case True
    have r: "r = (c1, Suc n)"
    proof (cases ok)
      case True
      with \<open>\<not> ok \<or> b c1 = 0\<close> have "b c1 = 0" by simp
      with body True show ?thesis by simp
    next
      case False
      with body show ?thesis by simp
    qed
    have "leaves f b c (Suc 0)" using True fc by (simp add: leaves_1)
    with r fc show ?thesis by (intro exI [of _ "Suc 0"]) simp
  next
    case False
    with body have rec: "rec f b c1 (Suc n) = Some r" by simp
    have "left_at f b c1 (Suc n) r"
      using rec by (rule IH)
    then obtain k where "1 \<le> k" "r = (after f k c1, Suc n + k)"
      "leaves f b c1 k" "\<forall>m. 1 \<le> m \<and> m < k \<longrightarrow> \<not> leaves f b c1 m"
      unfolding left_at_def by blast
    with fc have k: "1 \<le> k" "r = (after f k (snd (f c)), Suc n + k)"
      "leaves f b (snd (f c)) k" "\<forall>m. 1 \<le> m \<and> m < k \<longrightarrow> \<not> leaves f b (snd (f c)) m"
      by simp_all
    have first: "\<not> leaves f b c (Suc 0)" using False fc by (simp add: leaves_1)
    have nl: "\<not> leaves f b c m" if m: "1 \<le> m" "m < Suc k" for m
    proof (cases m)
      case 0
      with m show ?thesis by simp
    next
      case (Suc j)
      show ?thesis
      proof (cases "j = 0")
        case True
        with Suc first show ?thesis by simp
      next
        case False
        then have "1 \<le> j" by simp
        moreover have "j < k" using m Suc by simp
        ultimately have "\<not> leaves f b (snd (f c)) j" using k(4) by blast
        with \<open>1 \<le> j\<close> Suc show ?thesis by (simp add: leaves_Suc)
      qed
    qed
    have l: "leaves f b c (Suc k)" using k(1,3) by (simp add: leaves_Suc)
    have r: "r = (after f (Suc k) c, n + Suc k)" using k(2) by simp
    have "\<forall>m. 1 \<le> m \<and> m < Suc k \<longrightarrow> \<not> leaves f b c m" using nl by blast
    with l r show ?thesis
      by (intro exI [of _ "Suc k"]) simp
  qed
  then show "left_at f b c n r" unfolding left_at_def .
qed

lemma after_fixed_frame:
  "m * k \<le> length buf \<Longrightarrow> after (fixed_frame_Impl k) m buf = drop (m * k) buf"
proof (induction m arbitrary: buf)
  case 0
  then show ?case by simp
next
  case (Suc m)
  then have k: "k \<le> length buf" and m: "m * k \<le> length (drop k buf)" by simp_all
  from k have "after (fixed_frame_Impl k) (Suc m) buf = after (fixed_frame_Impl k) m (drop k buf)"
    by (simp add: fixed_frame_Impl_def)
  also have "\<dots> = drop (m * k) (drop k buf)" using m by (rule Suc.IH)
  also have "\<dots> = drop (Suc m * k) buf" by (simp add: add.commute)
  finally show ?case .
qed

lemma attempt_fixed_frame:
  "1 \<le> m \<Longrightarrow> m * k \<le> length buf \<Longrightarrow> attempt (fixed_frame_Impl k) m buf"
proof -
  assume m: "1 \<le> m" and le: "m * k \<le> length buf"
  then obtain j where j: "m = Suc j" by (cases m) simp_all
  with le have "j * k \<le> length buf" and "j * k + k \<le> length buf" by simp_all
  then show ?thesis
    by (simp add: attempt_def j after_fixed_frame fixed_frame_Impl_def)
qed

text \<open>
  C8. The drain loop calls \<^verbatim>\<open>dataReceivedImpl()\<close> again and again and returns exactly
  after the first call that either reports no complete frame or leaves zero bytes
  available: it returns the state \<open>c'\<close> after \<open>n\<close> calls if and only if \<open>n \<ge> 1\<close>, the
  \<open>n\<close>-th call is such a call and no earlier one is. In particular, when \<open>N \<ge> 1\<close> complete
  frames are buffered and nothing else (each of the first \<open>N\<close> calls consumes a frame,
  bytes remain after each of the first \<open>N - 1\<close> and none after the \<open>N\<close>-th), the loop
  returns after exactly \<open>N\<close> calls.
\<close>

theorem dataReceived_drains_buffered_frames:
  "(dataReceived f b c 0 = Some (c', n) \<longleftrightarrow>
      1 \<le> n \<and> c' = after f n c \<and> leaves f b c n \<and> (\<forall>m. 1 \<le> m \<and> m < n \<longrightarrow> \<not> leaves f b c m))
   \<and> (1 \<le> N \<and> (\<forall>m. 1 \<le> m \<and> m \<le> N \<longrightarrow> attempt f m c)
        \<and> (\<forall>m. 1 \<le> m \<and> m < N \<longrightarrow> b (after f m c) \<noteq> 0) \<and> b (after f N c) = 0
      \<longrightarrow> dataReceived f b c 0 = Some (after f N c, N))"
proof -
  have part1: "dataReceived f b c 0 = Some (c', n) \<longleftrightarrow>
      1 \<le> n \<and> c' = after f n c \<and> leaves f b c n \<and> (\<forall>m. 1 \<le> m \<and> m < n \<longrightarrow> \<not> leaves f b c m)"
  proof (rule iffI)
    assume "dataReceived f b c 0 = Some (c', n)"
    then have "left_at f b c 0 (c', n)" by (rule dataReceived_only)
    then show "1 \<le> n \<and> c' = after f n c \<and> leaves f b c n \<and>
        (\<forall>m. 1 \<le> m \<and> m < n \<longrightarrow> \<not> leaves f b c m)"
      unfolding left_at_def by auto
  next
    assume "1 \<le> n \<and> c' = after f n c \<and> leaves f b c n \<and>
        (\<forall>m. 1 \<le> m \<and> m < n \<longrightarrow> \<not> leaves f b c m)"
    then show "dataReceived f b c 0 = Some (c', n)"
      using dataReceived_returns [of n f b c 0] by simp
  qed
  have part2: "dataReceived f b c 0 = Some (after f N c, N)"
    if a: "1 \<le> N \<and> (\<forall>m. 1 \<le> m \<and> m \<le> N \<longrightarrow> attempt f m c)
        \<and> (\<forall>m. 1 \<le> m \<and> m < N \<longrightarrow> b (after f m c) \<noteq> 0) \<and> b (after f N c) = 0"
  proof -
    from a have "leaves f b c N" by (simp add: leaves_def)
    moreover from a have "\<forall>m. 1 \<le> m \<and> m < N \<longrightarrow> \<not> leaves f b c m" by (simp add: leaves_def)
    ultimately show ?thesis
      using a dataReceived_returns [of N f b c 0] by simp
  qed
  show ?thesis using part1 part2 by blast
qed

theorem dataReceived_drains_buffered_frames_witness:
  "dataReceived (fixed_frame_Impl 2) buffer_bytesAvailable [1, 2, 3, 4, 5, 6] 0 = Some ([], 3)"
proof -
  let ?f = "fixed_frame_Impl 2"
  let ?buf = "[1, 2, 3, 4, 5, 6] :: 8 word list"
  have a: "\<forall>m. 1 \<le> m \<and> m \<le> 3 \<longrightarrow> attempt ?f m ?buf"
    by (simp add: attempt_fixed_frame)
  have b: "\<forall>m. 1 \<le> m \<and> m < 3 \<longrightarrow> buffer_bytesAvailable (after ?f m ?buf) \<noteq> 0"
    by (simp add: after_fixed_frame buffer_bytesAvailable_def)
  have c: "after ?f 3 ?buf = []" by (simp add: after_fixed_frame)
  have d: "buffer_bytesAvailable (after ?f 3 ?buf) = 0"
    by (simp add: c buffer_bytesAvailable_def)
  from dataReceived_drains_buffered_frames [of ?f buffer_bytesAvailable ?buf "[]" 3 3] a b c d
  show ?thesis by simp
qed

text \<open>
  The same on any buffer that holds \<open>N \<ge> 1\<close> frames of \<open>k > 0\<close> bytes and nothing else.
  On an empty buffer the loop, which tests the channel after the call, still makes one
  call.
\<close>

lemma dataReceived_fixed_frames:
  assumes "0 < k" "1 \<le> N" "length buf = N * k"
  shows "dataReceived (fixed_frame_Impl k) buffer_bytesAvailable buf 0 = Some ([], N)"
proof -
  let ?f = "fixed_frame_Impl k"
  have le: "m * k \<le> length buf" if "m \<le> N" for m using that assms(3) by simp
  have l: "leaves ?f buffer_bytesAvailable buf N"
    using assms by (simp add: leaves_def after_fixed_frame buffer_bytesAvailable_def)
  have nl: "\<forall>m. 1 \<le> m \<and> m < N \<longrightarrow> \<not> leaves ?f buffer_bytesAvailable buf m"
  proof (intro allI impI)
    fix m assume m: "1 \<le> m \<and> m < N"
    then have "m * k < N * k" using assms(1) by simp
    with m le [of m] assms(3) show "\<not> leaves ?f buffer_bytesAvailable buf m"
      by (simp add: leaves_def attempt_fixed_frame after_fixed_frame buffer_bytesAvailable_def)
  qed
  have "after ?f N buf = []" using assms(3) by (simp add: after_fixed_frame)
  with dataReceived_returns [OF assms(2) l nl, of 0] show ?thesis by simp
qed

lemma dataReceived_empty_buffer:
  "dataReceived (fixed_frame_Impl k) buffer_bytesAvailable [] 0 = Some ([], 1)"
  by (subst dataReceived_unfold) (simp add: fixed_frame_Impl_def buffer_bytesAvailable_def)
end
